theory Spec2Isabelle
  imports Complex_Main "HOL-Library.Multiset"
begin

section \<open>Geofence evaluator\<close>

text \<open>
  The service computes with Python floats; they are idealised here as real numbers.
  \<open>math.sqrt\<close> raises \<open>ValueError\<close> on a negative argument, which is a branch of
  the model. \<open>math.atan2\<close> is written out by quadrant.
\<close>

datatype py_error = TypeError | ValueError | AttributeError | IntegrityError

definition SCIENCE_PARK_LAT :: real where
  "SCIENCE_PARK_LAT = 523547 / 10000"

definition SCIENCE_PARK_LNG :: real where
  "SCIENCE_PARK_LNG = 49543 / 10000"

definition ALLOWED_RADIUS_METERS :: real where
  "ALLOWED_RADIUS_METERS = 10000"

definition radians :: "real \<Rightarrow> real" where
  "radians x = x * (pi / 180)"

definition py_sqrt :: "real \<Rightarrow> py_error + real" where
  "py_sqrt x = (if x < 0 then Inl ValueError else Inr (sqrt x))"

definition atan2 :: "real \<Rightarrow> real \<Rightarrow> real" where
  "atan2 y x =
     (if 0 < x then arctan (y / x)
      else if x < 0 then (if 0 \<le> y then arctan (y / x) + pi else arctan (y / x) - pi)
      else if 0 < y then pi / 2
      else if y < 0 then - (pi / 2)
      else 0)"

definition haversine_a :: "real \<Rightarrow> real \<Rightarrow> real \<Rightarrow> real \<Rightarrow> real" where
  "haversine_a lat1 lon1 lat2 lon2 =
     (let phi1 = radians lat1;
          phi2 = radians lat2;
          delta_phi = radians (lat2 - lat1);
          delta_lambda = radians (lon2 - lon1)
      in (sin (delta_phi / 2))\<^sup>2 + cos phi1 * cos phi2 * (sin (delta_lambda / 2))\<^sup>2)"

definition haversine_distance :: "real \<Rightarrow> real \<Rightarrow> real \<Rightarrow> real \<Rightarrow> py_error + real" where
  "haversine_distance lat1 lon1 lat2 lon2 =
     (let R = 6371000;
          a = haversine_a lat1 lon1 lat2 lon2
      in case py_sqrt a of
           Inl e \<Rightarrow> Inl e
         | Inr s1 \<Rightarrow>
             (case py_sqrt (1 - a) of
                Inl e \<Rightarrow> Inl e
              | Inr s2 \<Rightarrow> Inr (R * (2 * atan2 s1 s2))))"

section \<open>Data model\<close>

text \<open>
  A calendar date is its ordinal day number and a timestamp its count of microseconds,
  both integers. A parsed JSON value is a datatype; a JSON object is the association
  list of its members, read with \<open>map_of\<close>.
\<close>

type_synonym date = int
type_synonym datetime = int

datatype json =
    JNull
  | JBool bool
  | JNum real
  | JStr string
  | JArr "json list"
  | JObj "(string \<times> json) list"

record user =
  id_user :: string
  email :: string
  name_user :: string
  picture_user :: "string option"

record checkin_row =
  id_checkin :: nat
  user_id :: string
  check_in_date :: date
  check_in_time :: datetime
  latitude :: real
  longitude :: real
  photo_data :: "json option"

text \<open>The two tables, each in storage order.\<close>

record database =
  users :: "user list"
  checkins :: "checkin_row list"

record leaderboard_entry =
  lb_rank :: nat
  lb_name :: string
  lb_picture :: "string option"
  lb_check_in_time :: datetime
  lb_photo :: "json option"

record history_entry =
  h_rank :: nat
  h_name :: string
  h_picture :: "string option"
  h_check_in_time :: datetime

record history_day =
  day_date :: date
  day_entries :: "history_entry list"

text \<open>
  The JSON responses of the routes, one constructor for each shape; an exception that
  leaves a view function is the framework's status 500.
\<close>

datatype response =
    NotAuthenticated
  | MissingCoordinates
  | PhotoRequired
  | TooFar real real
  | AlreadyCheckedIn datetime
  | LocationVerified real json json
  | CheckedIn datetime real
  | StatusResponse "datetime option"
  | LeaderboardResponse date "leaderboard_entry list"
  | HistoryResponse "history_day list"
  | InternalServerError py_error

section \<open>Storage operations\<close>

text \<open>\<open>User.query.get(k)\<close>, also what the \<open>user\<close> relationship of a check-in loads.\<close>

definition User_query_get :: "database \<Rightarrow> string \<Rightarrow> user option" where
  "User_query_get db k = find (\<lambda>u. id_user u = k) (users db)"

text \<open>\<open>CheckIn.query.filter_by(user_id=k, check_in_date=d).first()\<close>\<close>

definition CheckIn_first :: "database \<Rightarrow> string \<Rightarrow> date \<Rightarrow> checkin_row option" where
  "CheckIn_first db k d = find (\<lambda>c. user_id c = k \<and> check_in_date c = d) (checkins db)"

text \<open>\<open>CheckIn.query.filter_by(check_in_date=d).order_by(CheckIn.check_in_time.asc()).all()\<close>\<close>

definition CheckIn_by_date :: "database \<Rightarrow> date \<Rightarrow> checkin_row list" where
  "CheckIn_by_date db d = sort_key check_in_time (filter (\<lambda>c. check_in_date c = d) (checkins db))"

text \<open>The key of the constraint \<open>unique_user_date\<close> of the table.\<close>

definition user_date :: "checkin_row \<Rightarrow> string \<times> date" where
  "user_date c = (user_id c, check_in_date c)"

definition next_id :: "database \<Rightarrow> nat" where
  "next_id db = Suc (fold max (map id_checkin (checkins db)) 0)"

text \<open>
  \<open>db.session.add(row); db.session.commit()\<close>: the table refuses a row whose
  (user_id, check_in_date) is already present.
\<close>

definition db_add_commit :: "checkin_row \<Rightarrow> database \<Rightarrow> py_error + database" where
  "db_add_commit row db =
     (if user_date row \<in> set (map user_date (checkins db)) then Inl IntegrityError
      else Inr (db\<lparr>checkins := checkins db @ [row\<lparr>id_checkin := next_id db\<rparr>]\<rparr>))"

section \<open>Request handling\<close>

definition truthy :: "json \<Rightarrow> bool" where
  "truthy v =
     (case v of
        JNull \<Rightarrow> False
      | JBool b \<Rightarrow> b
      | JNum r \<Rightarrow> r \<noteq> 0
      | JStr s \<Rightarrow> s \<noteq> []
      | JArr xs \<Rightarrow> xs \<noteq> []
      | JObj kvs \<Rightarrow> kvs \<noteq> [])"

text \<open>The value a JSON member has as an operand of the \<open>math\<close> functions.\<close>

definition py_float :: "json \<Rightarrow> py_error + real" where
  "py_float v =
     (case v of
        JNum r \<Rightarrow> Inr r
      | JBool b \<Rightarrow> Inr (if b then 1 else 0)
      | _ \<Rightarrow> Inl TypeError)"

text \<open>\<open>round(x, 1)\<close>: to one decimal place, a tie going to the even digit.\<close>

definition py_round1 :: "real \<Rightarrow> real" where
  "py_round1 x =
     (let y = x * 10; f = \<lfloor>y\<rfloor>
      in (if y - of_int f < 1 / 2 then of_int f
          else if 1 / 2 < y - of_int f then of_int f + 1
          else if even f then of_int f else of_int f + 1) / 10)"

text \<open>
  \<open>haversine_distance(lat, lng, SCIENCE_PARK_LAT, SCIENCE_PARK_LNG)\<close> on the members
  of the request body.
\<close>

definition distance_to_science_park :: "json \<Rightarrow> json \<Rightarrow> py_error + real" where
  "distance_to_science_park lat lng =
     (case py_float lat of
        Inl e \<Rightarrow> Inl e
      | Inr lat1 \<Rightarrow>
          (case py_float lng of
             Inl e \<Rightarrow> Inl e
           | Inr lon1 \<Rightarrow> haversine_distance lat1 lon1 SCIENCE_PARK_LAT SCIENCE_PARK_LNG))"

text \<open>
  The decorator: the session or the bearer token names a user id (or none), the user is
  loaded from the table, and the view runs only for a user that is found.
\<close>

definition api_login_required ::
  "string option \<Rightarrow> (user \<Rightarrow> response \<times> database) \<Rightarrow> database \<Rightarrow> response \<times> database" where
  "api_login_required caller f db =
     (case caller of
        None \<Rightarrow> (NotAuthenticated, db)
      | Some k \<Rightarrow>
          (case User_query_get db k of
             None \<Rightarrow> (NotAuthenticated, db)
           | Some u \<Rightarrow> f u))"

definition verify_location ::
  "string option \<Rightarrow> (string \<times> json) list option \<Rightarrow> date \<Rightarrow> database \<Rightarrow> response \<times> database" where
  "verify_location caller data today db =
     api_login_required caller (\<lambda>user.
       case data of
         None \<Rightarrow> (MissingCoordinates, db)
       | Some d \<Rightarrow>
           (if d = [] then (MissingCoordinates, db)
            else case (map_of d ''latitude'', map_of d ''longitude'') of
              (Some lat, Some lng) \<Rightarrow>
                (case distance_to_science_park lat lng of
                   Inl e \<Rightarrow> (InternalServerError e, db)
                 | Inr distance \<Rightarrow>
                     (if distance > ALLOWED_RADIUS_METERS
                      then (TooFar (py_round1 distance) ALLOWED_RADIUS_METERS, db)
                      else case CheckIn_first db (id_user user) today of
                        Some existing \<Rightarrow> (AlreadyCheckedIn (check_in_time existing), db)
                      | None \<Rightarrow> (LocationVerified (py_round1 distance) lat lng, db)))
            | _ \<Rightarrow> (MissingCoordinates, db))) db"

text \<open>
  The check-in view in its two storage steps: everything up to and including the lookup
  of an existing row, which either answers the request or hands over what is to be
  written, and the insertion with its commit.
  The coordinates handed over are the numbers the distance was computed from, so their
  conversion cannot fail where it stands.
\<close>

record pending_checkin =
  p_lat :: real
  p_lng :: real
  p_photo :: json
  p_distance :: real

definition checkin_validate ::
  "user \<Rightarrow> (string \<times> json) list option \<Rightarrow> date \<Rightarrow> database \<Rightarrow> response + pending_checkin" where
  "checkin_validate user data today db =
     (case data of
        None \<Rightarrow> Inl MissingCoordinates
      | Some d \<Rightarrow>
          (if d = [] then Inl MissingCoordinates
           else case (map_of d ''latitude'', map_of d ''longitude'') of
             (Some lat, Some lng) \<Rightarrow>
               (case map_of d ''photo'' of
                  None \<Rightarrow> Inl PhotoRequired
                | Some photo \<Rightarrow>
                    (if \<not> truthy photo then Inl PhotoRequired
                     else case distance_to_science_park lat lng of
                       Inl e \<Rightarrow> Inl (InternalServerError e)
                     | Inr distance \<Rightarrow>
                         (if distance > ALLOWED_RADIUS_METERS
                          then Inl (TooFar (py_round1 distance) ALLOWED_RADIUS_METERS)
                          else case CheckIn_first db (id_user user) today of
                            Some existing \<Rightarrow> Inl (AlreadyCheckedIn (check_in_time existing))
                          | None \<Rightarrow>
                              (case (py_float lat, py_float lng) of
                                 (Inr la, Inr lo) \<Rightarrow>
                                   Inr \<lparr>p_lat = la, p_lng = lo, p_photo = photo,
                                        p_distance = distance\<rparr>
                               | _ \<Rightarrow> Inl (InternalServerError TypeError)))))
           | _ \<Rightarrow> Inl MissingCoordinates))"

definition checkin_insert ::
  "user \<Rightarrow> date \<Rightarrow> datetime \<Rightarrow> pending_checkin \<Rightarrow> database \<Rightarrow> response \<times> database" where
  "checkin_insert user today now p db =
     (let checkin = \<lparr>id_checkin = 0, user_id = id_user user, check_in_date = today,
                      check_in_time = now, latitude = p_lat p, longitude = p_lng p,
                      photo_data = Some (p_photo p)\<rparr>
      in case db_add_commit checkin db of
           Inl e \<Rightarrow> (InternalServerError e, db)
         | Inr db' \<Rightarrow> (CheckedIn (check_in_time checkin) (py_round1 (p_distance p)), db'))"

definition checkin ::
  "string option \<Rightarrow> (string \<times> json) list option \<Rightarrow> date \<Rightarrow> datetime \<Rightarrow> database
     \<Rightarrow> response \<times> database" where
  "checkin caller data today now db =
     api_login_required caller (\<lambda>user.
       case checkin_validate user data today db of
         Inl r \<Rightarrow> (r, db)
       | Inr p \<Rightarrow> checkin_insert user today now p db) db"

definition get_status :: "string option \<Rightarrow> date \<Rightarrow> database \<Rightarrow> response \<times> database" where
  "get_status caller today db =
     api_login_required caller (\<lambda>user.
       case CheckIn_first db (id_user user) today of
         Some c \<Rightarrow> (StatusResponse (Some (check_in_time c)), db)
       | None \<Rightarrow> (StatusResponse None, db)) db"

section \<open>Leaderboard and history\<close>

fun leaderboard_rows :: "database \<Rightarrow> (nat \<times> checkin_row) list \<Rightarrow> py_error + leaderboard_entry list" where
  "leaderboard_rows db [] = Inr []"
| "leaderboard_rows db ((i, c) # rest) =
     (case User_query_get db (user_id c) of
        None \<Rightarrow> Inl AttributeError
      | Some u \<Rightarrow>
          (case leaderboard_rows db rest of
             Inl e \<Rightarrow> Inl e
           | Inr es \<Rightarrow>
               Inr (\<lparr>lb_rank = i + 1, lb_name = name_user u, lb_picture = picture_user u,
                     lb_check_in_time = check_in_time c, lb_photo = photo_data c\<rparr> # es)))"

definition get_leaderboard :: "date \<Rightarrow> database \<Rightarrow> response \<times> database" where
  "get_leaderboard today db =
     (case leaderboard_rows db (enumerate 0 (CheckIn_by_date db today)) of
        Inl e \<Rightarrow> (InternalServerError e, db)
      | Inr leaderboard \<Rightarrow> (LeaderboardResponse today leaderboard, db))"

fun history_rows :: "database \<Rightarrow> (nat \<times> checkin_row) list \<Rightarrow> py_error + history_entry list" where
  "history_rows db [] = Inr []"
| "history_rows db ((i, c) # rest) =
     (case User_query_get db (user_id c) of
        None \<Rightarrow> Inl AttributeError
      | Some u \<Rightarrow>
          (case history_rows db rest of
             Inl e \<Rightarrow> Inl e
           | Inr es \<Rightarrow>
               Inr (\<lparr>h_rank = i + 1, h_name = name_user u, h_picture = picture_user u,
                     h_check_in_time = check_in_time c\<rparr> # es)))"

text \<open>
  \<open>db.session.query(CheckIn.check_in_date).distinct()
     .order_by(CheckIn.check_in_date.desc()).limit(30).all()\<close>
\<close>

definition dates_with_checkins :: "database \<Rightarrow> date list" where
  "dates_with_checkins db = take 30 (rev (sort (remdups (map check_in_date (checkins db)))))"

fun history_days :: "database \<Rightarrow> date list \<Rightarrow> py_error + history_day list" where
  "history_days db [] = Inr []"
| "history_days db (check_date # ds) =
     (case history_rows db (enumerate 0 (CheckIn_by_date db check_date)) of
        Inl e \<Rightarrow> Inl e
      | Inr es \<Rightarrow>
          (case history_days db ds of
             Inl e \<Rightarrow> Inl e
           | Inr days \<Rightarrow> Inr (\<lparr>day_date = check_date, day_entries = es\<rparr> # days)))"

definition get_history :: "database \<Rightarrow> response \<times> database" where
  "get_history db =
     (case history_days db (dates_with_checkins db) of
        Inl e \<Rightarrow> (InternalServerError e, db)
      | Inr history \<Rightarrow> (HistoryResponse history, db))"

section \<open>Two check-in requests in flight\<close>

text \<open>
  The server handles requests independently, so the lookup and the insertion of one
  check-in request can have the steps of another between them. A request for an
  authenticated user is followed through its two storage steps; a schedule says which of
  two requests moves next.
\<close>

record request =
  req_user :: user
  req_data :: "(string \<times> json) list option"
  req_today :: date
  req_now :: datetime

datatype progress = Started | Looked_up pending_checkin | Answered response

fun step :: "request \<Rightarrow> progress \<times> database \<Rightarrow> progress \<times> database" where
  "step r (Started, db) =
     (case checkin_validate (req_user r) (req_data r) (req_today r) db of
        Inl resp \<Rightarrow> (Answered resp, db)
      | Inr p \<Rightarrow> (Looked_up p, db))"
| "step r (Looked_up p, db) =
     (case checkin_insert (req_user r) (req_today r) (req_now r) p db of
        (resp, db') \<Rightarrow> (Answered resp, db'))"
| "step r (Answered resp, db) = (Answered resp, db)"

fun run ::
  "request \<Rightarrow> request \<Rightarrow> bool list \<Rightarrow> progress \<times> progress \<times> database
     \<Rightarrow> progress \<times> progress \<times> database" where
  "run a b [] s = s"
| "run a b (False # sch) (pa, pb, db) =
     (case step a (pa, db) of (pa', db') \<Rightarrow> run a b sch (pa', pb, db'))"
| "run a b (True # sch) (pa, pb, db) =
     (case step b (pb, db) of (pb', db') \<Rightarrow> run a b sch (pa, pb', db'))"

section \<open>Predicates of the statements\<close>

text \<open>The constraint \<open>unique_user_date\<close> as a property of the table.\<close>

definition unique_user_date :: "database \<Rightarrow> bool" where
  "unique_user_date db = distinct (map user_date (checkins db))"

text \<open>The foreign key of \<open>user_id\<close>: every check-in belongs to a user of the table.\<close>

definition fk_ok :: "database \<Rightarrow> bool" where
  "fk_ok db = list_all (\<lambda>c. User_query_get db (user_id c) \<noteq> None) (checkins db)"

fun is_too_far :: "response \<Rightarrow> bool" where
  "is_too_far (TooFar x r) = True"
| "is_too_far _ = False"


fun is_success :: "response \<Rightarrow> bool" where
  "is_success (CheckedIn t x) = True"
| "is_success _ = False"

text \<open>Whether \<open>data.get('photo')\<close> is a true value.\<close>

definition has_photo :: "(string \<times> json) list option \<Rightarrow> bool" where
  "has_photo data =
     (case data of
        None \<Rightarrow> False
      | Some d \<Rightarrow> (case map_of d ''photo'' of None \<Rightarrow> False | Some v \<Rightarrow> truthy v))"

fun succeeded :: "progress \<Rightarrow> bool" where
  "succeeded (Answered r) = is_success r"
| "succeeded _ = False"

definition without_photo :: "leaderboard_entry \<Rightarrow> history_entry" where
  "without_photo e =
     \<lparr>h_rank = lb_rank e, h_name = lb_name e, h_picture = lb_picture e,
      h_check_in_time = lb_check_in_time e\<rparr>"

text \<open>
  The ledgers the service can reach from an empty check-in table: by any request to one
  of its routes, and by the insertion step of a check-in request of a user of the table
  whose lookup ran on an earlier ledger.
\<close>

inductive reachable :: "database \<Rightarrow> bool" where
  empty: "checkins db = [] \<Longrightarrow> reachable db"
| by_checkin: "reachable db \<Longrightarrow> reachable (snd (checkin caller data today now db))"
| by_insert: "reachable db \<Longrightarrow> User_query_get db (id_user user) \<noteq> None \<Longrightarrow>
     reachable (snd (checkin_insert user today now p db))"
| by_verify: "reachable db \<Longrightarrow> reachable (snd (verify_location caller data today db))"
| by_status: "reachable db \<Longrightarrow> reachable (snd (get_status caller today db))"
| by_leaderboard: "reachable db \<Longrightarrow> reachable (snd (get_leaderboard today db))"
| by_history: "reachable db \<Longrightarrow> reachable (snd (get_history db))"

section \<open>An example ledger\<close>

definition user_a :: user where
  "user_a = \<lparr>id_user = ''ua'', email = ''a@example.org'', name_user = ''A'', picture_user = None\<rparr>"

definition user_b :: user where
  "user_b = \<lparr>id_user = ''ub'', email = ''b@example.org'', name_user = ''B'',
              picture_user = Some ''b.png''\<rparr>"

definition example_ledger :: database where
  "example_ledger =
     \<lparr>users = [user_a, user_b],
      checkins =
        [\<lparr>id_checkin = 1, user_id = ''ua'', check_in_date = 4, check_in_time = 700,
          latitude = SCIENCE_PARK_LAT, longitude = SCIENCE_PARK_LNG,
          photo_data = Some (JStr ''jpeg'')\<rparr>,
         \<lparr>id_checkin = 2, user_id = ''ua'', check_in_date = 5, check_in_time = 900,
          latitude = SCIENCE_PARK_LAT, longitude = SCIENCE_PARK_LNG,
          photo_data = Some (JStr ''jpeg'')\<rparr>,
         \<lparr>id_checkin = 3, user_id = ''ub'', check_in_date = 5, check_in_time = 905,
          latitude = SCIENCE_PARK_LAT, longitude = SCIENCE_PARK_LNG,
          photo_data = Some (JStr ''jpeg'')\<rparr>]\<rparr>"

text \<open>
  Submissions on the meridian of the reference point: at a latitude whose distance is
  exactly the allowed radius, and a quarter of the globe away.
\<close>

definition boundary_lat :: real where
  "boundary_lat = SCIENCE_PARK_LAT - (10000 / 6371000) * (180 / pi)"

definition far_lat :: real where
  "far_lat = SCIENCE_PARK_LAT - 90"

definition submission :: "real \<Rightarrow> (string \<times> json) list" where
  "submission lat =
     [(''latitude'', JNum lat), (''longitude'', JNum SCIENCE_PARK_LNG), (''photo'', JStr ''jpeg'')]"


text \<open>
  The ledger before any check-in, and two check-in requests of user B for day 6.
\<close>

definition empty_ledger :: database where
  "empty_ledger = \<lparr>users = [user_a, user_b], checkins = []\<rparr>"

definition first_request :: request where
  "first_request =
     \<lparr>req_user = user_b, req_data = Some (submission SCIENCE_PARK_LAT), req_today = 6,
      req_now = 1000\<rparr>"

definition second_request :: request where
  "second_request =
     \<lparr>req_user = user_b, req_data = Some (submission SCIENCE_PARK_LAT), req_today = 6,
      req_now = 1001\<rparr>"

section \<open>Facts about the distance\<close>

lemma haversine_a_sym:
  "haversine_a lat1 lon1 lat2 lon2 = haversine_a lat2 lon2 lat1 lon1"
proof -
  have neg: "radians (y - x) / 2 = - (radians (x - y) / 2)" for x y
    unfolding radians_def by argo
  have d1: "sin (radians (lat2 - lat1) / 2) = - sin (radians (lat1 - lat2) / 2)"
    by (simp only: neg [of lat2 lat1] sin_minus)
  have d2: "sin (radians (lon2 - lon1) / 2) = - sin (radians (lon1 - lon2) / 2)"
    by (simp only: neg [of lon2 lon1] sin_minus)
  show ?thesis
    unfolding haversine_a_def Let_def d1 d2 by (simp add: mult.commute)
qed

lemma haversine_a_same: "haversine_a lat lon lat lon = 0"
  by (simp add: haversine_a_def radians_def)

lemma haversine_a_convex:
  "haversine_a lat1 lon1 lat2 lon2 =
     (1 - (sin (radians (lon2 - lon1) / 2))\<^sup>2) * (sin (radians (lat2 - lat1) / 2))\<^sup>2
     + (sin (radians (lon2 - lon1) / 2))\<^sup>2 * (cos ((radians lat1 + radians lat2) / 2))\<^sup>2"
proof -
  define p where "p = radians lat1"
  define q where "q = radians lat2"
  have dp: "radians (lat2 - lat1) = q - p"
    by (simp add: radians_def p_def q_def left_diff_distrib)
  have half: "2 * (x / 2) = x" for x :: real
    by simp
  have s: "(sin ((q - p) / 2))\<^sup>2 = (1 - cos (q - p)) / 2"
    using cos_double_sin [of "(q - p) / 2"] unfolding half by argo
  have c: "(cos ((p + q) / 2))\<^sup>2 = (1 + cos (p + q)) / 2"
    using cos_double_cos [of "(p + q) / 2"] unfolding half by argo
  have key: "(sin ((q - p) / 2))\<^sup>2 + cos p * cos q = (cos ((p + q) / 2))\<^sup>2"
    unfolding s c by (simp add: cos_add cos_diff field_simps)
  have "haversine_a lat1 lon1 lat2 lon2 =
          (sin ((q - p) / 2))\<^sup>2 + cos p * cos q * (sin (radians (lon2 - lon1) / 2))\<^sup>2"
    by (simp add: haversine_a_def dp p_def q_def)
  also have "\<dots> = (1 - (sin (radians (lon2 - lon1) / 2))\<^sup>2) * (sin ((q - p) / 2))\<^sup>2
      + (sin (radians (lon2 - lon1) / 2))\<^sup>2 * ((sin ((q - p) / 2))\<^sup>2 + cos p * cos q)"
    by (simp add: algebra_simps)
  also have "\<dots> = (1 - (sin (radians (lon2 - lon1) / 2))\<^sup>2) * (sin ((q - p) / 2))\<^sup>2
      + (sin (radians (lon2 - lon1) / 2))\<^sup>2 * (cos ((p + q) / 2))\<^sup>2"
    by (simp only: key)
  finally show ?thesis
    by (simp only: dp p_def q_def)
qed

lemma sin_sq_unit: "0 \<le> (sin (x::real))\<^sup>2 \<and> (sin x)\<^sup>2 \<le> 1"
  using abs_sin_le_one [of x] by (simp add: abs_square_le_1)

lemma cos_sq_unit: "0 \<le> (cos (x::real))\<^sup>2 \<and> (cos x)\<^sup>2 \<le> 1"
  using abs_cos_le_one [of x] by (simp add: abs_square_le_1)

lemma convex_unit:
  fixes s u v :: real
  assumes "0 \<le> s" "s \<le> 1" "0 \<le> u" "u \<le> 1" "0 \<le> v" "v \<le> 1"
  shows "0 \<le> (1 - s) * u + s * v \<and> (1 - s) * u + s * v \<le> 1"
proof
  show "0 \<le> (1 - s) * u + s * v"
    using assms by simp
  have "0 \<le> 1 - s"
    using assms by simp
  then have "(1 - s) * u \<le> (1 - s) * 1"
    using assms by (intro mult_left_mono) simp_all
  moreover have "s * v \<le> s * 1"
    using assms by (intro mult_left_mono) simp_all
  ultimately show "(1 - s) * u + s * v \<le> 1"
    by simp
qed

lemma haversine_a_unit:
  "0 \<le> haversine_a lat1 lon1 lat2 lon2 \<and> haversine_a lat1 lon1 lat2 lon2 \<le> 1"
  unfolding haversine_a_convex
  using sin_sq_unit cos_sq_unit by (intro convex_unit) simp_all


lemma haversine_distance_eq:
  "haversine_distance lat1 lon1 lat2 lon2 =
     Inr (6371000 * (2 * atan2 (sqrt (haversine_a lat1 lon1 lat2 lon2))
                               (sqrt (1 - haversine_a lat1 lon1 lat2 lon2))))"
  using haversine_a_unit [of lat1 lon1 lat2 lon2]
  by (simp add: haversine_distance_def py_sqrt_def Let_def)

section \<open>The distance function\<close>

text \<open>
  C8. The haversine distance is symmetric in its two coordinate pairs, and it is zero
  when both pairs are the same point.
\<close>

theorem haversine_symmetric_and_zero:
  "haversine_distance a b c d = haversine_distance c d a b
   \<and> haversine_distance a b a b = Inr 0"
proof
  show "haversine_distance a b c d = haversine_distance c d a b"
    unfolding haversine_distance_def haversine_a_sym [of a b c d] ..
  show "haversine_distance a b a b = Inr 0"
    by (simp add: haversine_distance_eq haversine_a_same atan2_def)
qed



section \<open>Reads\<close>

lemma verify_location_frame: "snd (verify_location caller data today db) = db"
  by (simp add: verify_location_def api_login_required_def
      split: option.splits sum.splits list.splits prod.splits)

lemma get_status_frame: "snd (get_status caller today db) = db"
  by (simp add: get_status_def api_login_required_def split: option.splits)

lemma get_leaderboard_frame: "snd (get_leaderboard today db) = db"
  by (simp add: get_leaderboard_def split: sum.splits)

lemma get_history_frame: "snd (get_history db) = db"
  by (simp add: get_history_def split: sum.splits)

text \<open>
  C9. The pre-flight verification, the status read, the daily leaderboard and the
  history view leave the ledger as they found it, whatever the ledger and the request.
\<close>

theorem reads_leave_ledger_unchanged:
  "snd (verify_location caller data today db) = db
   \<and> snd (get_status caller today db) = db
   \<and> snd (get_leaderboard today db) = db
   \<and> snd (get_history db) = db"
  by (simp add: verify_location_frame get_status_frame get_leaderboard_frame get_history_frame)

section \<open>Leaderboard and history views\<close>

lemma fk_ok_by_date:
  "fk_ok db \<Longrightarrow> list_all (\<lambda>c. User_query_get db (user_id c) \<noteq> None) (CheckIn_by_date db d)"
  by (auto simp: fk_ok_def CheckIn_by_date_def list_all_iff)

lemma leaderboard_rows_ok:
  "list_all (\<lambda>c. User_query_get db (user_id c) \<noteq> None) cs \<Longrightarrow>
   \<exists>lb. leaderboard_rows db (enumerate n cs) = Inr lb \<and> length lb = length cs
     \<and> (\<forall>i<length cs. lb_rank (lb ! i) = n + i + 1
           \<and> lb_check_in_time (lb ! i) = check_in_time (cs ! i)
           \<and> lb_photo (lb ! i) = photo_data (cs ! i)
           \<and> (\<exists>u. User_query_get db (user_id (cs ! i)) = Some u
                 \<and> lb_name (lb ! i) = name_user u \<and> lb_picture (lb ! i) = picture_user u))"
proof (induction cs arbitrary: n)
  case Nil
  then show ?case by simp
next
  case (Cons c cs)
  from Cons.prems obtain u where u: "User_query_get db (user_id c) = Some u"
    by auto
  from Cons.prems have "list_all (\<lambda>c. User_query_get db (user_id c) \<noteq> None) cs"
    by simp
  from Cons.IH [OF this, of "Suc n"] obtain lb where
    lb: "leaderboard_rows db (enumerate (Suc n) cs) = Inr lb" "length lb = length cs"
    and nth: "\<And>i. i < length cs \<Longrightarrow> lb_rank (lb ! i) = Suc n + i + 1
           \<and> lb_check_in_time (lb ! i) = check_in_time (cs ! i)
           \<and> lb_photo (lb ! i) = photo_data (cs ! i)
           \<and> (\<exists>u. User_query_get db (user_id (cs ! i)) = Some u
                 \<and> lb_name (lb ! i) = name_user u \<and> lb_picture (lb ! i) = picture_user u)"
    by blast
  let ?e = "\<lparr>lb_rank = n + 1, lb_name = name_user u, lb_picture = picture_user u,
             lb_check_in_time = check_in_time c, lb_photo = photo_data c\<rparr>"
  have "leaderboard_rows db (enumerate n (c # cs)) = Inr (?e # lb)"
    by (simp add: u lb)
  moreover have "length (?e # lb) = length (c # cs)"
    by (simp add: lb)
  moreover have "\<forall>i<length (c # cs). lb_rank ((?e # lb) ! i) = n + i + 1
           \<and> lb_check_in_time ((?e # lb) ! i) = check_in_time ((c # cs) ! i)
           \<and> lb_photo ((?e # lb) ! i) = photo_data ((c # cs) ! i)
           \<and> (\<exists>u. User_query_get db (user_id ((c # cs) ! i)) = Some u
                 \<and> lb_name ((?e # lb) ! i) = name_user u \<and> lb_picture ((?e # lb) ! i) = picture_user u)"
  proof (intro allI impI)
    fix i assume "i < length (c # cs)"
    then show "lb_rank ((?e # lb) ! i) = n + i + 1
           \<and> lb_check_in_time ((?e # lb) ! i) = check_in_time ((c # cs) ! i)
           \<and> lb_photo ((?e # lb) ! i) = photo_data ((c # cs) ! i)
           \<and> (\<exists>u. User_query_get db (user_id ((c # cs) ! i)) = Some u
                 \<and> lb_name ((?e # lb) ! i) = name_user u \<and> lb_picture ((?e # lb) ! i) = picture_user u)"
      using nth [of "i - 1"] u by (cases i) simp_all
  qed
  ultimately show ?case by blast
qed

lemma leaderboard_rows_empty: "leaderboard_rows db (enumerate n []) = Inr []"
  by simp

lemma sorted_by_date: "sorted (map check_in_time (CheckIn_by_date db d))"
  by (simp add: CheckIn_by_date_def)

lemma mset_by_date:
  "mset (CheckIn_by_date db d) = mset (filter (\<lambda>c. check_in_date c = d) (checkins db))"
  by (simp add: CheckIn_by_date_def)

text \<open>
  C4. For every date, the daily leaderboard holds exactly the check-in rows of that date,
  in ascending order of completion time, each with its 1-based position as rank, so that
  ranks are contiguous from 1 and a later timestamp has a larger rank (rows with equal
  timestamps keep their storage order). When the ledger has no row for the date the answer
  is the empty sequence, not an error.
\<close>

theorem daily_leaderboard_ranked:
  "(fk_ok db \<longrightarrow>
      (\<exists>rows lb. get_leaderboard today db = (LeaderboardResponse today lb, db)
         \<and> mset rows = mset (filter (\<lambda>c. check_in_date c = today) (checkins db))
         \<and> sorted (map check_in_time rows)
         \<and> length lb = length rows
         \<and> (\<forall>i<length rows. lb_rank (lb ! i) = i + 1
               \<and> lb_check_in_time (lb ! i) = check_in_time (rows ! i)
               \<and> lb_photo (lb ! i) = photo_data (rows ! i)
               \<and> (\<exists>u. User_query_get db (user_id (rows ! i)) = Some u
                     \<and> lb_name (lb ! i) = name_user u \<and> lb_picture (lb ! i) = picture_user u))
         \<and> (\<forall>i<length lb. \<forall>j<length lb.
               lb_check_in_time (lb ! i) < lb_check_in_time (lb ! j) \<longrightarrow> lb_rank (lb ! i) < lb_rank (lb ! j))))
   \<and> (filter (\<lambda>c. check_in_date c = today) (checkins db) = [] \<longrightarrow>
        get_leaderboard today db = (LeaderboardResponse today [], db))"
proof (intro conjI impI)
  assume fk: "fk_ok db"
  let ?rows = "CheckIn_by_date db today"
  from leaderboard_rows_ok [OF fk_ok_by_date [OF fk, of today], where n = 0] obtain lb where
    lb: "leaderboard_rows db (enumerate 0 ?rows) = Inr lb" "length lb = length ?rows"
    and nth: "\<And>i. i < length ?rows \<Longrightarrow> lb_rank (lb ! i) = 0 + i + 1
           \<and> lb_check_in_time (lb ! i) = check_in_time (?rows ! i)
           \<and> lb_photo (lb ! i) = photo_data (?rows ! i)
           \<and> (\<exists>u. User_query_get db (user_id (?rows ! i)) = Some u
                 \<and> lb_name (lb ! i) = name_user u \<and> lb_picture (lb ! i) = picture_user u)"
    by blast
  have mono: "lb_rank (lb ! i) < lb_rank (lb ! j)"
    if "i < length lb" "j < length lb" "lb_check_in_time (lb ! i) < lb_check_in_time (lb ! j)" for i j
  proof -
    have "\<not> j \<le> i"
    proof
      assume "j \<le> i"
      then have "map check_in_time ?rows ! j \<le> map check_in_time ?rows ! i"
        using that lb(2) sorted_by_date [of db today] by (intro sorted_nth_mono) simp_all
      then show False
        using that lb(2) nth [of i] nth [of j] by simp
    qed
    then show ?thesis
      using that lb(2) nth [of i] nth [of j] by simp
  qed
  have "get_leaderboard today db = (LeaderboardResponse today lb, db)"
    by (simp add: get_leaderboard_def lb)
  moreover have "\<forall>i<length ?rows. lb_rank (lb ! i) = i + 1
           \<and> lb_check_in_time (lb ! i) = check_in_time (?rows ! i)
           \<and> lb_photo (lb ! i) = photo_data (?rows ! i)
           \<and> (\<exists>u. User_query_get db (user_id (?rows ! i)) = Some u
                 \<and> lb_name (lb ! i) = name_user u \<and> lb_picture (lb ! i) = picture_user u)"
    using nth by simp
  moreover have "\<forall>i<length lb. \<forall>j<length lb.
      lb_check_in_time (lb ! i) < lb_check_in_time (lb ! j) \<longrightarrow> lb_rank (lb ! i) < lb_rank (lb ! j)"
    using mono by blast
  ultimately show "\<exists>rows lb. get_leaderboard today db = (LeaderboardResponse today lb, db)
         \<and> mset rows = mset (filter (\<lambda>c. check_in_date c = today) (checkins db))
         \<and> sorted (map check_in_time rows)
         \<and> length lb = length rows
         \<and> (\<forall>i<length rows. lb_rank (lb ! i) = i + 1
               \<and> lb_check_in_time (lb ! i) = check_in_time (rows ! i)
               \<and> lb_photo (lb ! i) = photo_data (rows ! i)
               \<and> (\<exists>u. User_query_get db (user_id (rows ! i)) = Some u
                     \<and> lb_name (lb ! i) = name_user u \<and> lb_picture (lb ! i) = picture_user u))
         \<and> (\<forall>i<length lb. \<forall>j<length lb.
               lb_check_in_time (lb ! i) < lb_check_in_time (lb ! j) \<longrightarrow> lb_rank (lb ! i) < lb_rank (lb ! j))"
    using lb(2) sorted_by_date [of db today] mset_by_date [of db today] by blast
next
  assume "filter (\<lambda>c. check_in_date c = today) (checkins db) = []"
  then show "get_leaderboard today db = (LeaderboardResponse today [], db)"
    by (simp add: get_leaderboard_def CheckIn_by_date_def)
qed


lemma history_rows_without_photo:
  "leaderboard_rows db xs = Inr lb \<Longrightarrow> history_rows db xs = Inr (map without_photo lb)"
proof (induction db xs arbitrary: lb rule: leaderboard_rows.induct)
  case (1 db)
  then show ?case by simp
next
  case (2 db i c rest)
  then show ?case
    by (auto simp: without_photo_def split: option.splits sum.splits)
qed

lemma history_days_ok:
  "fk_ok db \<Longrightarrow>
   \<exists>h. history_days db ds = Inr h \<and> map day_date h = ds
     \<and> (\<forall>day\<in>set h. \<exists>lb. get_leaderboard (day_date day) db
                                 = (LeaderboardResponse (day_date day) lb, db)
                               \<and> day_entries day = map without_photo lb)"
proof (induction ds)
  case Nil
  then show ?case by simp
next
  case (Cons d ds)
  from leaderboard_rows_ok [OF fk_ok_by_date [OF Cons.prems, of d], where n = 0]
  obtain lb where lb: "leaderboard_rows db (enumerate 0 (CheckIn_by_date db d)) = Inr lb"
    by blast
  from Cons.IH [OF Cons.prems] obtain h where
    h: "history_days db ds = Inr h" "map day_date h = ds"
    and days: "\<forall>day\<in>set h. \<exists>lb. get_leaderboard (day_date day) db
                                 = (LeaderboardResponse (day_date day) lb, db)
                               \<and> day_entries day = map without_photo lb"
    by blast
  let ?day = "\<lparr>day_date = d, day_entries = map without_photo lb\<rparr>"
  have "history_days db (d # ds) = Inr (?day # h)"
    by (simp add: history_rows_without_photo [OF lb] h)
  moreover have "get_leaderboard (day_date ?day) db = (LeaderboardResponse (day_date ?day) lb, db)"
    by (simp add: get_leaderboard_def lb)
  ultimately show ?case
    using h(2) days by auto
qed

lemma dates_with_checkins_props:
  "length (dates_with_checkins db) \<le> 30
   \<and> sorted_wrt (>) (dates_with_checkins db)
   \<and> distinct (dates_with_checkins db)
   \<and> set (dates_with_checkins db) \<subseteq> check_in_date ` set (checkins db)"
proof -
  let ?ds = "sort (remdups (map check_in_date (checkins db)))"
  have "sorted_wrt (<) ?ds"
    by (simp add: strict_sorted_iff)
  then have "sorted_wrt (>) (rev ?ds)"
    by (simp add: sorted_wrt_rev)
  then have "sorted_wrt (>) (take 30 (rev ?ds))"
    by (rule sorted_wrt_take)
  moreover have "set (take 30 (rev ?ds)) \<subseteq> check_in_date ` set (checkins db)"
    using set_take_subset [of 30 "rev ?ds"] by simp
  ultimately show ?thesis
    by (simp add: dates_with_checkins_def)
qed

text \<open>
  C5. For every ledger, the history view returns at most 30 calendar dates of the
  ledger, strictly descending and without duplicates, and the entries of each date are
  the entries of the daily leaderboard of that date with the photo field left out.
\<close>

theorem history_window:
  "fk_ok db \<Longrightarrow>
   \<exists>h. get_history db = (HistoryResponse h, db)
     \<and> length h \<le> 30
     \<and> sorted_wrt (>) (map day_date h)
     \<and> distinct (map day_date h)
     \<and> set (map day_date h) \<subseteq> check_in_date ` set (checkins db)
     \<and> (\<forall>day\<in>set h. \<exists>lb. get_leaderboard (day_date day) db
                                 = (LeaderboardResponse (day_date day) lb, db)
                               \<and> day_entries day = map without_photo lb)"
proof -
  assume fk: "fk_ok db"
  from history_days_ok [OF fk, of "dates_with_checkins db"] obtain h where
    h: "history_days db (dates_with_checkins db) = Inr h"
       "map day_date h = dates_with_checkins db"
    and days: "\<forall>day\<in>set h. \<exists>lb. get_leaderboard (day_date day) db
                                 = (LeaderboardResponse (day_date day) lb, db)
                               \<and> day_entries day = map without_photo lb"
    by blast
  have "get_history db = (HistoryResponse h, db)"
    by (simp add: get_history_def h)
  moreover have "length h \<le> 30 \<and> sorted_wrt (>) (map day_date h) \<and> distinct (map day_date h)
      \<and> set (map day_date h) \<subseteq> check_in_date ` set (checkins db)"
    using dates_with_checkins_props [of db] unfolding h(2) [symmetric] by simp
  ultimately show ?thesis
    using days by blast
qed


text \<open>The example ledger: A checks in at 900 and B at 905 on day 5.\<close>

lemma fk_ok_example: "fk_ok example_ledger"
  by (simp add: fk_ok_def example_ledger_def User_query_get_def user_a_def user_b_def)

lemma leaderboard_example:
  "get_leaderboard 5 example_ledger =
     (LeaderboardResponse 5
        [\<lparr>lb_rank = 1, lb_name = ''A'', lb_picture = None, lb_check_in_time = 900,
          lb_photo = Some (JStr ''jpeg'')\<rparr>,
         \<lparr>lb_rank = 2, lb_name = ''B'', lb_picture = Some ''b.png'', lb_check_in_time = 905,
          lb_photo = Some (JStr ''jpeg'')\<rparr>], example_ledger)"
  by (simp add: get_leaderboard_def CheckIn_by_date_def example_ledger_def User_query_get_def
      user_a_def user_b_def)

lemma history_example:
  "get_history example_ledger =
     (HistoryResponse
        [\<lparr>day_date = 5, day_entries =
            [\<lparr>h_rank = 1, h_name = ''A'', h_picture = None, h_check_in_time = 900\<rparr>,
             \<lparr>h_rank = 2, h_name = ''B'', h_picture = Some ''b.png'', h_check_in_time = 905\<rparr>]\<rparr>,
         \<lparr>day_date = 4, day_entries =
            [\<lparr>h_rank = 1, h_name = ''A'', h_picture = None, h_check_in_time = 700\<rparr>]\<rparr>],
      example_ledger)"
  by (simp add: get_history_def dates_with_checkins_def CheckIn_by_date_def example_ledger_def
      User_query_get_def user_a_def user_b_def)

theorem daily_leaderboard_ranked_witness:
  "fk_ok example_ledger
   \<and> (\<exists>rows lb. get_leaderboard 5 example_ledger = (LeaderboardResponse 5 lb, example_ledger)
         \<and> mset rows = mset (filter (\<lambda>c. check_in_date c = 5) (checkins example_ledger))
         \<and> sorted (map check_in_time rows)
         \<and> length lb = length rows
         \<and> (\<forall>i<length rows. lb_rank (lb ! i) = i + 1
               \<and> lb_check_in_time (lb ! i) = check_in_time (rows ! i)
               \<and> lb_photo (lb ! i) = photo_data (rows ! i)
               \<and> (\<exists>u. User_query_get example_ledger (user_id (rows ! i)) = Some u
                     \<and> lb_name (lb ! i) = name_user u \<and> lb_picture (lb ! i) = picture_user u))
         \<and> (\<forall>i<length lb. \<forall>j<length lb.
               lb_check_in_time (lb ! i) < lb_check_in_time (lb ! j) \<longrightarrow> lb_rank (lb ! i) < lb_rank (lb ! j)))
   \<and> map lb_name (case fst (get_leaderboard 5 example_ledger) of
                     LeaderboardResponse d lb \<Rightarrow> lb | _ \<Rightarrow> []) = [''A'', ''B'']
   \<and> filter (\<lambda>c. check_in_date c = 7) (checkins example_ledger) = []
   \<and> get_leaderboard 7 example_ledger = (LeaderboardResponse 7 [], example_ledger)"
proof -
  have e: "filter (\<lambda>c. check_in_date c = 7) (checkins example_ledger) = []"
    by (simp add: example_ledger_def)
  have a: "(\<exists>rows lb. get_leaderboard 5 example_ledger = (LeaderboardResponse 5 lb, example_ledger)
         \<and> mset rows = mset (filter (\<lambda>c. check_in_date c = 5) (checkins example_ledger))
         \<and> sorted (map check_in_time rows)
         \<and> length lb = length rows
         \<and> (\<forall>i<length rows. lb_rank (lb ! i) = i + 1
               \<and> lb_check_in_time (lb ! i) = check_in_time (rows ! i)
               \<and> lb_photo (lb ! i) = photo_data (rows ! i)
               \<and> (\<exists>u. User_query_get example_ledger (user_id (rows ! i)) = Some u
                     \<and> lb_name (lb ! i) = name_user u \<and> lb_picture (lb ! i) = picture_user u))
         \<and> (\<forall>i<length lb. \<forall>j<length lb.
               lb_check_in_time (lb ! i) < lb_check_in_time (lb ! j) \<longrightarrow> lb_rank (lb ! i) < lb_rank (lb ! j)))"
    by (rule mp [OF conjunct1 [OF daily_leaderboard_ranked [of example_ledger 5]] fk_ok_example])
  have b: "get_leaderboard 7 example_ledger = (LeaderboardResponse 7 [], example_ledger)"
    by (rule mp [OF conjunct2 [OF daily_leaderboard_ranked [of example_ledger 7]] e])
  have c: "map lb_name (case fst (get_leaderboard 5 example_ledger) of
                     LeaderboardResponse d lb \<Rightarrow> lb | _ \<Rightarrow> []) = [''A'', ''B'']"
    by (simp add: leaderboard_example)
  show ?thesis
    using fk_ok_example a c e b by (intro conjI)
qed

theorem history_window_witness:
  "fk_ok example_ledger
   \<and> (\<exists>h. get_history example_ledger = (HistoryResponse h, example_ledger)
     \<and> length h \<le> 30
     \<and> sorted_wrt (>) (map day_date h)
     \<and> distinct (map day_date h)
     \<and> set (map day_date h) \<subseteq> check_in_date ` set (checkins example_ledger)
     \<and> (\<forall>day\<in>set h. \<exists>lb. get_leaderboard (day_date day) example_ledger
                                 = (LeaderboardResponse (day_date day) lb, example_ledger)
                               \<and> day_entries day = map without_photo lb))
   \<and> map day_date (case fst (get_history example_ledger) of
                     HistoryResponse h \<Rightarrow> h | _ \<Rightarrow> []) = [5, 4]"
proof -
  have a: "(\<exists>h. get_history example_ledger = (HistoryResponse h, example_ledger)
     \<and> length h \<le> 30
     \<and> sorted_wrt (>) (map day_date h)
     \<and> distinct (map day_date h)
     \<and> set (map day_date h) \<subseteq> check_in_date ` set (checkins example_ledger)
     \<and> (\<forall>day\<in>set h. \<exists>lb. get_leaderboard (day_date day) example_ledger
                                 = (LeaderboardResponse (day_date day) lb, example_ledger)
                               \<and> day_entries day = map without_photo lb))"
    by (rule history_window [OF fk_ok_example])
  have c: "map day_date (case fst (get_history example_ledger) of
                     HistoryResponse h \<Rightarrow> h | _ \<Rightarrow> []) = [5, 4]"
    by (simp add: history_example)
  show ?thesis
    using fk_ok_example a c by (intro conjI)
qed

section \<open>Check-in requests\<close>

lemma haversine_meridian:
  assumes "0 < t" "t < pi" "radians (lat2 - lat1) = t"
  shows "haversine_distance lat1 lon lat2 lon = Inr (6371000 * t)"
proof -
  have z: "radians 0 = 0"
    by (simp add: radians_def)
  have a: "haversine_a lat1 lon lat2 lon = (sin (t / 2))\<^sup>2"
    by (simp add: haversine_a_def assms(3) z)
  have s: "0 < sin (t / 2)"
    using assms by (intro sin_gt_zero) simp_all
  have c: "0 < cos (t / 2)"
    using assms by (intro cos_gt_zero_pi) simp_all
  have "1 - (sin (t / 2))\<^sup>2 = (cos (t / 2))\<^sup>2"
    using sin_cos_squared_add [of "t / 2"] by linarith
  then have r2: "sqrt (1 - haversine_a lat1 lon lat2 lon) = cos (t / 2)"
    using c by (simp add: a)
  have r1: "sqrt (haversine_a lat1 lon lat2 lon) = sin (t / 2)"
    using s by (simp add: a)
  have "atan2 (sin (t / 2)) (cos (t / 2)) = arctan (tan (t / 2))"
    using c by (simp add: atan2_def tan_def)
  also have "\<dots> = t / 2"
    using assms by (intro arctan_tan) simp_all
  finally show ?thesis
    by (simp add: haversine_distance_eq r1 r2)
qed

lemma distance_reference:
  "distance_to_science_park (JNum SCIENCE_PARK_LAT) (JNum SCIENCE_PARK_LNG) = Inr 0"
  by (simp add: distance_to_science_park_def py_float_def haversine_distance_eq
      haversine_a_same atan2_def)

lemma distance_boundary:
  "distance_to_science_park (JNum boundary_lat) (JNum SCIENCE_PARK_LNG) = Inr 10000"
proof -
  have "radians (SCIENCE_PARK_LAT - boundary_lat) = 10000 / 6371000"
    by (simp add: radians_def boundary_lat_def)
  moreover have "(10000 / 6371000 :: real) < pi"
    using pi_ge_two by simp
  ultimately have
    "haversine_distance boundary_lat SCIENCE_PARK_LNG SCIENCE_PARK_LAT SCIENCE_PARK_LNG
       = Inr (6371000 * (10000 / 6371000))"
    by (intro haversine_meridian) simp_all
  then show ?thesis
    by (simp add: distance_to_science_park_def py_float_def)
qed

lemma distance_far:
  "distance_to_science_park (JNum far_lat) (JNum SCIENCE_PARK_LNG) = Inr (6371000 * (pi / 2))"
proof -
  have "radians (SCIENCE_PARK_LAT - far_lat) = pi / 2"
    by (simp add: radians_def far_lat_def)
  then have
    "haversine_distance far_lat SCIENCE_PARK_LNG SCIENCE_PARK_LAT SCIENCE_PARK_LNG
       = Inr (6371000 * (pi / 2))"
    by (intro haversine_meridian) simp_all
  then show ?thesis
    by (simp add: distance_to_science_park_def py_float_def)
qed

lemma distance_numbers:
  "distance_to_science_park lat lng = Inr distance \<Longrightarrow>
   \<exists>la lo. py_float lat = Inr la \<and> py_float lng = Inr lo"
  by (auto simp: distance_to_science_park_def split: sum.splits)

text \<open>
  C3. The geofence decision is boundary-inclusive. For a submission whose distance is
  computed (an authenticated user, both coordinates numbers, and for the check-in a
  photo), the pre-flight verification and the check-in answer with the out-of-range
  error exactly when the distance is strictly greater than 10000 metres; at a distance
  of exactly 10000 the geofence test is passed.
\<close>

theorem geofence_boundary_inclusive:
  assumes "User_query_get db k = Some user"
      and "map_of d ''latitude'' = Some lat"
      and "map_of d ''longitude'' = Some lng"
      and "distance_to_science_park lat lng = Inr distance"
  shows "(is_too_far (fst (verify_location (Some k) (Some d) today db)) \<longleftrightarrow> distance > 10000)
       \<and> (has_photo (Some d) \<longrightarrow>
            (is_too_far (fst (checkin (Some k) (Some d) today now db)) \<longleftrightarrow> distance > 10000))"
proof
  have ne: "d \<noteq> []"
    using assms(2) by auto
  show "is_too_far (fst (verify_location (Some k) (Some d) today db)) \<longleftrightarrow> distance > 10000"
    using assms ne
    by (simp add: verify_location_def api_login_required_def ALLOWED_RADIUS_METERS_def
        split: option.splits)
  show "has_photo (Some d) \<longrightarrow>
            (is_too_far (fst (checkin (Some k) (Some d) today now db)) \<longleftrightarrow> distance > 10000)"
  proof
    assume "has_photo (Some d)"
    then obtain photo where p: "map_of d ''photo'' = Some photo" "truthy photo"
      by (auto simp: has_photo_def split: option.splits)
    from distance_numbers [OF assms(4)] obtain la lo where
      n: "py_float lat = Inr la" "py_float lng = Inr lo"
      by blast
    show "is_too_far (fst (checkin (Some k) (Some d) today now db)) \<longleftrightarrow> distance > 10000"
      using assms ne p n
      by (simp add: checkin_def checkin_validate_def checkin_insert_def api_login_required_def
          ALLOWED_RADIUS_METERS_def Let_def split: option.splits sum.splits)
  qed
qed


lemma user_b_found: "User_query_get example_ledger ''ub'' = Some user_b"
  by (simp add: User_query_get_def example_ledger_def user_a_def user_b_def)


theorem geofence_boundary_inclusive_witness:
  "User_query_get example_ledger ''ub'' = Some user_b
   \<and> distance_to_science_park (JNum boundary_lat) (JNum SCIENCE_PARK_LNG) = Inr 10000
   \<and> has_photo (Some (submission boundary_lat))
   \<and> \<not> is_too_far (fst (verify_location (Some ''ub'') (Some (submission boundary_lat)) 6 example_ledger))
   \<and> \<not> is_too_far (fst (checkin (Some ''ub'') (Some (submission boundary_lat)) 6 1000 example_ledger))
   \<and> distance_to_science_park (JNum far_lat) (JNum SCIENCE_PARK_LNG) = Inr (6371000 * (pi / 2))
   \<and> is_too_far (fst (verify_location (Some ''ub'') (Some (submission far_lat)) 6 example_ledger))
   \<and> is_too_far (fst (checkin (Some ''ub'') (Some (submission far_lat)) 6 1000 example_ledger))"
proof -
  have la: "map_of (submission x) ''latitude'' = Some (JNum x)" for x
    by (simp add: submission_def)
  have lo: "map_of (submission x) ''longitude'' = Some (JNum SCIENCE_PARK_LNG)" for x
    by (simp add: submission_def)
  have ph: "has_photo (Some (submission x))" for x
    by (simp add: has_photo_def submission_def truthy_def)
  have far: "(10000 :: real) < 6371000 * (pi / 2)"
    using pi_ge_two by simp
  note near = geofence_boundary_inclusive [OF user_b_found la lo distance_boundary, of 6 1000]
  note away = geofence_boundary_inclusive [OF user_b_found la lo distance_far, of 6 1000]
  show ?thesis
    using near away ph far user_b_found distance_boundary distance_far by simp
qed











lemma unique_example: "unique_user_date example_ledger"
  by (simp add: unique_user_date_def example_ledger_def user_date_def)




section \<open>One check-in for each user and date\<close>

lemma db_add_commit_unique:
  "unique_user_date db \<Longrightarrow> db_add_commit row db = Inr db' \<Longrightarrow> unique_user_date db'"
  by (auto simp: db_add_commit_def unique_user_date_def user_date_def split: if_splits)

lemma checkin_insert_unique:
  "unique_user_date db \<Longrightarrow> unique_user_date (snd (checkin_insert user today now p db))"
  by (auto simp: checkin_insert_def Let_def dest: db_add_commit_unique split: sum.splits)

lemma checkin_unique:
  "unique_user_date db \<Longrightarrow> unique_user_date (snd (checkin caller data today now db))"
  by (auto simp: checkin_def api_login_required_def checkin_insert_unique
      split: option.splits sum.splits)

lemma reachable_unique: "reachable db \<Longrightarrow> unique_user_date db"
proof (induction rule: reachable.induct)
  case (empty db)
  then show ?case by (simp add: unique_user_date_def)
next
  case (by_checkin db caller data today now)
  from by_checkin.IH show ?case by (rule checkin_unique)
next
  case (by_insert db user today now p)
  from by_insert.IH show ?case by (rule checkin_insert_unique)
qed (simp_all add: verify_location_frame get_status_frame get_leaderboard_frame get_history_frame)

lemma distinct_key_at_most_one:
  "distinct (map f xs) \<Longrightarrow> length (filter (\<lambda>c. f c = y) xs) \<le> 1"
proof (induction xs)
  case Nil
  then show ?case by simp
next
  case (Cons x xs)
  show ?case
  proof (cases "f x = y")
    case True
    from Cons.prems have "f x \<notin> f ` set xs"
      by simp
    with True have "\<forall>c\<in>set xs. f c \<noteq> y"
      by blast
    then have "filter (\<lambda>c. f c = y) xs = []"
      by (simp add: filter_empty_conv)
    with True show ?thesis by simp
  next
    case False
    with Cons show ?thesis by simp
  qed
qed

lemma unique_at_most_one:
  "unique_user_date db \<Longrightarrow>
   length (filter (\<lambda>c. user_id c = k \<and> check_in_date c = d) (checkins db)) \<le> 1"
  using distinct_key_at_most_one [of user_date "checkins db" "(k, d)"]
  by (simp add: unique_user_date_def user_date_def)

lemma checkin_existing_frame:
  assumes "c \<in> set (checkins db)" "user_id c = k" "check_in_date c = today"
  shows "snd (checkin (Some k) data today now db) = db"
proof (cases "User_query_get db k")
  case None
  then show ?thesis
    by (simp add: checkin_def api_login_required_def)
next
  case (Some u)
  then have k: "id_user u = k"
    by (auto simp: User_query_get_def find_Some_iff)
  have "CheckIn_first db k today \<noteq> None"
    using assms by (auto simp: CheckIn_first_def find_None_iff)
  then have "\<exists>r. checkin_validate u data today db = Inl r"
    by (auto simp: checkin_validate_def k split: option.splits sum.splits)
  then show ?thesis
    using Some by (auto simp: checkin_def api_login_required_def)
qed

text \<open>
  C1. Every ledger the service reaches from an empty check-in table has at most one
  check-in for each user and date; an execution of the check-in keeps a ledger with that
  property in it; and a check-in attempt for a user and date that already has a check-in
  leaves the ledger as it was.
\<close>

theorem one_checkin_per_user_date:
  "(reachable db \<longrightarrow>
      (\<forall>k d. length (filter (\<lambda>c. user_id c = k \<and> check_in_date c = d) (checkins db)) \<le> 1))
   \<and> (unique_user_date db \<longrightarrow> unique_user_date (snd (checkin caller data today now db)))
   \<and> ((\<exists>c\<in>set (checkins db). user_id c = k \<and> check_in_date c = today) \<longrightarrow>
        snd (checkin (Some k) data today now db) = db)"
  using reachable_unique unique_at_most_one checkin_unique checkin_existing_frame by blast


lemma py_round1_zero: "py_round1 0 = 0"
  by (simp add: py_round1_def)

lemma validate_fresh:
  assumes "CheckIn_first db (id_user u) today = None"
  shows "checkin_validate u (Some (submission SCIENCE_PARK_LAT)) today db =
           Inr \<lparr>p_lat = SCIENCE_PARK_LAT, p_lng = SCIENCE_PARK_LNG, p_photo = JStr ''jpeg'',
                p_distance = 0\<rparr>"
  using assms
  by (simp add: checkin_validate_def submission_def truthy_def distance_reference
      ALLOWED_RADIUS_METERS_def py_float_def)

lemma first_none_key:
  "CheckIn_first db k d = None \<Longrightarrow> (k, d) \<notin> set (map user_date (checkins db))"
  by (auto simp: CheckIn_first_def find_None_iff user_date_def)

lemma checkin_fresh:
  assumes "User_query_get db k = Some u" "CheckIn_first db (id_user u) today = None"
  shows "checkin (Some k) (Some (submission SCIENCE_PARK_LAT)) today now db =
           (CheckedIn now 0,
            db\<lparr>checkins := checkins db @
               [\<lparr>id_checkin = next_id db, user_id = id_user u, check_in_date = today,
                 check_in_time = now, latitude = SCIENCE_PARK_LAT, longitude = SCIENCE_PARK_LNG,
                 photo_data = Some (JStr ''jpeg'')\<rparr>]\<rparr>)"
  using assms first_none_key [OF assms(2)]
  by (simp add: checkin_def api_login_required_def validate_fresh checkin_insert_def
      db_add_commit_def user_date_def py_round1_zero)

lemma example_reachable: "reachable example_ledger"
proof -
  let ?s = "Some (submission SCIENCE_PARK_LAT)"
  let ?d1 = "snd (checkin (Some ''ua'') ?s 4 700 empty_ledger)"
  let ?d2 = "snd (checkin (Some ''ua'') ?s 5 900 ?d1)"
  let ?d3 = "snd (checkin (Some ''ub'') ?s 5 905 ?d2)"
  have r0: "reachable empty_ledger"
    by (rule reachable.empty) (simp add: empty_ledger_def)
  have d1: "?d1 = \<lparr>users = [user_a, user_b], checkins =
        [\<lparr>id_checkin = 1, user_id = ''ua'', check_in_date = 4, check_in_time = 700,
          latitude = SCIENCE_PARK_LAT, longitude = SCIENCE_PARK_LNG,
          photo_data = Some (JStr ''jpeg'')\<rparr>]\<rparr>"
    by (subst checkin_fresh [where u = user_a])
      (simp_all add: empty_ledger_def User_query_get_def CheckIn_first_def user_a_def next_id_def)
  have d2: "?d2 = \<lparr>users = [user_a, user_b], checkins =
        [\<lparr>id_checkin = 1, user_id = ''ua'', check_in_date = 4, check_in_time = 700,
          latitude = SCIENCE_PARK_LAT, longitude = SCIENCE_PARK_LNG,
          photo_data = Some (JStr ''jpeg'')\<rparr>,
         \<lparr>id_checkin = 2, user_id = ''ua'', check_in_date = 5, check_in_time = 900,
          latitude = SCIENCE_PARK_LAT, longitude = SCIENCE_PARK_LNG,
          photo_data = Some (JStr ''jpeg'')\<rparr>]\<rparr>"
    unfolding d1
    by (subst checkin_fresh [where u = user_a])
      (simp_all add: User_query_get_def CheckIn_first_def user_a_def next_id_def)
  have d3: "?d3 = example_ledger"
    unfolding d2
    by (subst checkin_fresh [where u = user_b])
      (simp_all add: User_query_get_def CheckIn_first_def user_a_def user_b_def next_id_def
        example_ledger_def)
  have "reachable ?d3"
    by (intro reachable.by_checkin r0)
  then show ?thesis
    by (simp only: d3)
qed


theorem one_checkin_per_user_date_witness:
  "reachable example_ledger
   \<and> (\<forall>k d. length (filter (\<lambda>c. user_id c = k \<and> check_in_date c = d)
                     (checkins example_ledger)) \<le> 1)
   \<and> unique_user_date example_ledger
   \<and> unique_user_date
        (snd (checkin (Some ''ub'') (Some (submission SCIENCE_PARK_LAT)) 6 1000 example_ledger))
   \<and> (\<exists>c\<in>set (checkins example_ledger). user_id c = ''ua'' \<and> check_in_date c = 5)
   \<and> snd (checkin (Some ''ua'') (Some (submission SCIENCE_PARK_LAT)) 5 950 example_ledger)
       = example_ledger"
proof -
  note t = one_checkin_per_user_date [where db = example_ledger and caller = "Some ''ub''"
      and data = "Some (submission SCIENCE_PARK_LAT)" and today = 6 and now = 1000]
  note t' = one_checkin_per_user_date [where db = example_ledger and caller = "Some ''ua''"
      and data = "Some (submission SCIENCE_PARK_LAT)" and today = 5 and now = 950
      and k = "''ua''"]
  have e: "\<exists>c\<in>set (checkins example_ledger). user_id c = ''ua'' \<and> check_in_date c = 5"
    by (simp add: example_ledger_def)
  have a: "\<forall>k d. length (filter (\<lambda>c. user_id c = k \<and> check_in_date c = d)
                     (checkins example_ledger)) \<le> 1"
    by (rule mp [OF conjunct1 [OF t] example_reachable])
  have b: "unique_user_date
        (snd (checkin (Some ''ub'') (Some (submission SCIENCE_PARK_LAT)) 6 1000 example_ledger))"
    by (rule mp [OF conjunct1 [OF conjunct2 [OF t]] unique_example])
  have c: "snd (checkin (Some ''ua'') (Some (submission SCIENCE_PARK_LAT)) 5 950 example_ledger)
       = example_ledger"
    by (rule mp [OF conjunct2 [OF conjunct2 [OF t']] e])
  show ?thesis
    using example_reachable a unique_example b e c by (intro conjI)
qed

lemma validate_example:
  "checkin_validate user_b (Some (submission SCIENCE_PARK_LAT)) 6 example_ledger =
     Inr \<lparr>p_lat = SCIENCE_PARK_LAT, p_lng = SCIENCE_PARK_LNG, p_photo = JStr ''jpeg'',
          p_distance = 0\<rparr>"
  by (rule validate_fresh) (simp add: CheckIn_first_def example_ledger_def user_b_def)

text \<open>
  C2. Two check-in requests of one user for one date, both looked up before either is
  inserted: the first insertion succeeds, the second violates the constraint
  \<open>unique_user_date\<close>, and the exception leaves the view as a status 500, not as the
  answer "already checked in". When the second request starts after the first has
  finished, it is answered "already checked in" with the first one's timestamp.
\<close>

theorem concurrent_checkin_loser_gets_integrity_error:
  "fst (run first_request second_request [False, True, False, True]
          (Started, Started, example_ledger)) = Answered (CheckedIn 1000 0)
   \<and> fst (snd (run first_request second_request [False, True, False, True]
          (Started, Started, example_ledger))) = Answered (InternalServerError IntegrityError)
   \<and> fst (snd (run first_request second_request [False, False, True, True]
          (Started, Started, example_ledger))) = Answered (AlreadyCheckedIn 1000)"
  by (simp add: first_request_def second_request_def validate_example checkin_insert_def
      db_add_commit_def user_date_def py_round1_zero example_ledger_def user_b_def
      checkin_validate_def submission_def truthy_def distance_reference
      ALLOWED_RADIUS_METERS_def CheckIn_first_def py_float_def next_id_def)


lemma validate_no_success: "checkin_validate u data today db = Inl r \<Longrightarrow> \<not> is_success r"
  by (auto simp: checkin_validate_def split: option.splits sum.splits if_splits)

lemma insert_success:
  assumes "checkin_insert u today now p db = (r, db')"
  shows "(is_success r \<longrightarrow> (id_user u, today) \<notin> set (map user_date (checkins db))
                          \<and> (id_user u, today) \<in> set (map user_date (checkins db')))
         \<and> set (map user_date (checkins db)) \<subseteq> set (map user_date (checkins db'))"
  using assms
  by (auto simp: checkin_insert_def db_add_commit_def user_date_def Let_def split: if_splits)

lemma step_success:
  assumes "step r (p, db) = (p', db')"
  shows "set (map user_date (checkins db)) \<subseteq> set (map user_date (checkins db'))
         \<and> (succeeded p \<longrightarrow> succeeded p')
         \<and> (succeeded p' \<and> \<not> succeeded p \<longrightarrow>
               (id_user (req_user r), req_today r) \<notin> set (map user_date (checkins db))
               \<and> (id_user (req_user r), req_today r) \<in> set (map user_date (checkins db')))"
proof (cases p)
  case Started
  with assms show ?thesis
    by (auto split: sum.splits dest: validate_no_success)
next
  case (Looked_up q)
  obtain resp d where i: "checkin_insert (req_user r) (req_today r) (req_now r) q db = (resp, d)"
    by (cases "checkin_insert (req_user r) (req_today r) (req_now r) q db")
  with assms Looked_up have "p' = Answered resp" "db' = d"
    by simp_all
  with insert_success [OF i] Looked_up show ?thesis
    by auto
next
  case (Answered resp)
  with assms show ?thesis by auto
qed

lemma run_at_most_one_success:
  assumes "id_user (req_user a) = id_user (req_user b)" "req_today a = req_today b"
    and "(succeeded pa \<or> succeeded pb) \<longrightarrow>
           (id_user (req_user a), req_today a) \<in> set (map user_date (checkins db))"
    and "\<not> (succeeded pa \<and> succeeded pb)"
    and "run a b sch (pa, pb, db) = (pa', pb', db')"
  shows "\<not> (succeeded pa' \<and> succeeded pb')"
  using assms
proof (induction sch arbitrary: pa pb db)
  case Nil
  then show ?case by simp
next
  case (Cons x sch)
  show ?case
  proof (cases x)
    case False
    obtain p1 d1 where s: "step a (pa, db) = (p1, d1)"
      by (cases "step a (pa, db)")
    with Cons.prems False have r: "run a b sch (p1, pb, d1) = (pa', pb', db')"
      by simp
    note f = step_success [OF s]
    have "(succeeded p1 \<or> succeeded pb) \<longrightarrow>
           (id_user (req_user a), req_today a) \<in> set (map user_date (checkins d1))"
      using f Cons.prems(3) by blast
    moreover have "\<not> (succeeded p1 \<and> succeeded pb)"
      using f Cons.prems(3,4) by blast
    ultimately show ?thesis
      using Cons.IH [OF Cons.prems(1,2) _ _ r] by blast
  next
    case True
    obtain p1 d1 where s: "step b (pb, db) = (p1, d1)"
      by (cases "step b (pb, db)")
    with Cons.prems True have r: "run a b sch (pa, p1, d1) = (pa', pb', db')"
      by simp
    note f = step_success [OF s]
    have "(succeeded pa \<or> succeeded p1) \<longrightarrow>
           (id_user (req_user a), req_today a) \<in> set (map user_date (checkins d1))"
      using f Cons.prems(1,2,3) by auto
    moreover have "\<not> (succeeded pa \<and> succeeded p1)"
      using f Cons.prems(1,2,3,4) by auto
    ultimately show ?thesis
      using Cons.IH [OF Cons.prems(1,2) _ _ r] by blast
  qed
qed

lemma run_unique:
  "unique_user_date db \<Longrightarrow> run a b sch (pa, pb, db) = (pa', pb', db') \<Longrightarrow> unique_user_date db'"
proof (induction sch arbitrary: pa pb db)
  case Nil
  then show ?case by simp
next
  case (Cons x sch)
  have st: "unique_user_date (snd (step r (p, db)))" for r p
  proof (cases p)
    case Started
    with Cons.prems(1) show ?thesis
      by (simp split: sum.splits)
  next
    case (Looked_up q)
    with checkin_insert_unique [OF Cons.prems(1), of "req_user r" "req_today r" "req_now r" q]
    show ?thesis
      by (auto split: prod.splits)
  next
    case (Answered resp)
    with Cons.prems(1) show ?thesis
      by simp
  qed
  show ?case
  proof (cases x)
    case False
    obtain p1 d1 where s: "step a (pa, db) = (p1, d1)"
      by (cases "step a (pa, db)")
    with Cons.prems(2) False have r: "run a b sch (p1, pb, d1) = (pa', pb', db')"
      by simp
    from st [of a pa] s have "unique_user_date d1"
      by simp
    then show ?thesis
      using r by (rule Cons.IH)
  next
    case True
    obtain p1 d1 where s: "step b (pb, db) = (p1, d1)"
      by (cases "step b (pb, db)")
    with Cons.prems(2) True have r: "run a b sch (pa, p1, d1) = (pa', pb', db')"
      by simp
    from st [of b pb] s have "unique_user_date d1"
      by simp
    then show ?thesis
      using r by (rule Cons.IH)
  qed
qed

lemma checkin_is_two_steps:
  assumes "User_query_get db k = Some u"
    and "r = \<lparr>req_user = u, req_data = data, req_today = today, req_now = now\<rparr>"
  shows "step r (step r (Started, db)) =
           (Answered (fst (checkin (Some k) data today now db)),
            snd (checkin (Some k) data today now db))"
  using assms
  by (auto simp: checkin_def api_login_required_def split: sum.splits prod.splits)

lemma checkin_insert_users: "users (snd (checkin_insert user today now p db)) = users db"
  by (auto simp: checkin_insert_def db_add_commit_def Let_def)

lemma checkin_insert_fk_ok:
  assumes "fk_ok db" "User_query_get db (id_user user) \<noteq> None"
  shows "fk_ok (snd (checkin_insert user today now p db))"
  using assms
  by (auto simp: checkin_insert_def db_add_commit_def Let_def fk_ok_def User_query_get_def)

lemma checkin_fk_ok: "fk_ok db \<Longrightarrow> fk_ok (snd (checkin caller data today now db))"
proof (cases caller)
  case None
  assume "fk_ok db"
  with None show ?thesis
    by (simp add: checkin_def api_login_required_def)
next
  case (Some k)
  assume fk: "fk_ok db"
  show ?thesis
  proof (cases "User_query_get db k")
    case None
    with Some fk show ?thesis
      by (simp add: checkin_def api_login_required_def)
  next
    case u: (Some u)
    then have "id_user u = k"
      by (auto simp: User_query_get_def find_Some_iff)
    with u have "User_query_get db (id_user u) \<noteq> None"
      by simp
    from checkin_insert_fk_ok [OF fk this] Some u fk show ?thesis
      by (auto simp: checkin_def api_login_required_def split: sum.splits)
  qed
qed

lemma reachable_fk_ok: "reachable db \<Longrightarrow> fk_ok db"
proof (induction rule: reachable.induct)
  case (empty db)
  then show ?case by (simp add: fk_ok_def)
next
  case (by_checkin db caller data today now)
  from by_checkin.IH show ?case by (rule checkin_fk_ok)
next
  case (by_insert db user today now p)
  from by_insert.IH by_insert.hyps(2) show ?case by (rule checkin_insert_fk_ok)
qed (simp_all add: verify_location_frame get_status_frame get_leaderboard_frame get_history_frame)

end
